theory Spec2Isabelle
  imports Main "HOL-Library.Monad_Syntax" "HOL-Library.AList" "HOL-Library.Sublist"
begin

section \<open>Python strings\<close>

text \<open>
  A Python \<open>str\<close> is a sequence of Unicode code points, and \<open>len\<close> counts code points.
  A code point is a natural number here; \<open>ascii\<close> reads an ASCII literal.
  An operation of the source that can raise (\<open>xs[i]\<close>) returns an \<open>option\<close>:
  \<open>None\<close> stands for the raised \<open>IndexError\<close>.
\<close>

type_synonym uchar = nat
type_synonym ustring = "uchar list"

definition ascii :: "string \<Rightarrow> ustring" where
  "ascii s = map of_char s"

definition py_index :: "'a list \<Rightarrow> nat \<Rightarrow> 'a option" where
  \<comment> \<open>\<open>xs[i]\<close> for \<open>i \<ge> 0\<close>; out of range raises.\<close>
  "py_index xs i = (if i < length xs then Some (xs ! i) else None)"

subsection \<open>The sanitizer\<close>

text \<open>
  \<open>text.replace(old, new)\<close>, for an \<open>old\<close> of one code point (every key of the
  table below is one): each occurrence is replaced, left to right.
\<close>

definition str_replace :: "uchar \<Rightarrow> ustring \<Rightarrow> ustring \<Rightarrow> ustring" where
  "str_replace old new text = concat (map (\<lambda>c. if c = old then new else [c]) text)"

text \<open>
  The dict literal of \<open>_sanitize_text\<close>, pair by pair as the source writes it. A dict
  keeps a key at the place of its first insertion and takes the value of its last, which
  is what \<open>AList.update\<close> does (U+2011 is written twice).
\<close>

definition replacements_literal :: "(uchar \<times> ustring) list" where
  "replacements_literal =
    [(0x2013, ascii ''-''), (0x2014, ascii ''-''), (0x2015, ascii ''-''),
     (0x2018, [39]), (0x2019, [39]), (0x201C, [34]), (0x201D, [34]),
     (0x2022, ascii ''-''), (0x2026, ascii ''...''), (0x00A0, ascii '' ''),
     (0x200B, []), (0x00AD, ascii ''-''), (0xFEFF, []), (0x2010, ascii ''-''),
     (0x2011, ascii ''-''), (0x2012, ascii ''-''), (0x2500, ascii ''-''),
     (0x25AA, ascii ''-''), (0x25BA, ascii ''-''), (0x25CF, ascii ''-''),
     (0x2011, ascii ''-'')]"

definition replacements :: "(uchar \<times> ustring) list" where
  "replacements = foldl (\<lambda>d (k, v). AList.update k v d) [] replacements_literal"

definition sanitize_text :: "ustring \<Rightarrow> ustring" where
  \<comment> \<open>\<open>for old, new in replacements.items(): text = text.replace(old, new)\<close>\<close>
  "sanitize_text text = foldl (\<lambda>t (old, new). str_replace old new t) text replacements"

subsection \<open>Whitespace, case and search\<close>

text \<open>
  The character tables of the Python runtime are not part of the repository. The
  whitespace table is the one of \<open>str.isspace\<close>. The case tables are those of the
  Unicode database for the code points below U+0100 (Basic Latin and Latin-1, which hold
  every letter of the section patterns and keywords of the source); a larger code point
  is taken as uncased, and a decimal digit is one of \<open>0\<close> to \<open>9\<close>. So the model
  leaves out the cased and titlecase letters above U+00FF (for \<open>isupper\<close> and
  \<open>lower\<close>), the letters above U+00FF that \<open>(?i)\<close> pairs with a Latin letter (the
  Kelvin sign with \<open>k\<close>, the long s with \<open>s\<close>, the dotless i with \<open>i\<close>) and the
  decimal digits of other scripts (for \<open>\d\<close>). No theorem below depends on what these
  tables say about a code point; the concrete inputs are ASCII or Latin-1.
\<close>

definition py_isspace :: "uchar \<Rightarrow> bool" where
  "py_isspace c =
    ((0x09 \<le> c \<and> c \<le> 0x0D) \<or> (0x1C \<le> c \<and> c \<le> 0x20) \<or> c = 0x85 \<or> c = 0xA0
     \<or> c = 0x1680 \<or> (0x2000 \<le> c \<and> c \<le> 0x200A) \<or> c = 0x2028 \<or> c = 0x2029
     \<or> c = 0x202F \<or> c = 0x205F \<or> c = 0x3000)"

definition is_upper_char :: "uchar \<Rightarrow> bool" where
  "is_upper_char c = ((0x41 \<le> c \<and> c \<le> 0x5A) \<or> (0xC0 \<le> c \<and> c \<le> 0xDE \<and> c \<noteq> 0xD7))"

definition is_lower_char :: "uchar \<Rightarrow> bool" where
  "is_lower_char c =
    ((0x61 \<le> c \<and> c \<le> 0x7A) \<or> c = 0xAA \<or> c = 0xB5 \<or> c = 0xBA
     \<or> (0xDF \<le> c \<and> c \<le> 0xFF \<and> c \<noteq> 0xF7))"

definition is_digit :: "uchar \<Rightarrow> bool" where
  "is_digit c = (0x30 \<le> c \<and> c \<le> 0x39)"

definition lower_char :: "uchar \<Rightarrow> uchar" where
  "lower_char c = (if is_upper_char c then c + 32 else c)"

definition upper_char :: "uchar \<Rightarrow> ustring" where
  "upper_char c =
    (if c = 0xDF then [0x53, 0x53] else if c = 0xFF then [0x178] else if c = 0xB5 then [0x39C]
     else if (0x61 \<le> c \<and> c \<le> 0x7A) \<or> (0xE0 \<le> c \<and> c \<le> 0xFE \<and> c \<noteq> 0xF7) then [c - 32]
     else [c])"

definition py_lower :: "ustring \<Rightarrow> ustring" where
  \<comment> \<open>\<open>s.lower()\<close>\<close>
  "py_lower s = map lower_char s"

definition py_upper :: "ustring \<Rightarrow> ustring" where
  \<comment> \<open>\<open>s.upper()\<close>\<close>
  "py_upper s = concat (map upper_char s)"

definition py_isupper :: "ustring \<Rightarrow> bool" where
  \<comment> \<open>\<open>s.isupper()\<close>: no lower-case character and at least one upper-case character.\<close>
  "py_isupper s = (\<not> list_ex is_lower_char s \<and> list_ex is_upper_char s)"

definition strip :: "ustring \<Rightarrow> ustring" where
  \<comment> \<open>\<open>s.strip()\<close>\<close>
  "strip s = rev (dropWhile py_isspace (rev (dropWhile py_isspace s)))"

definition rstrip_chars :: "ustring \<Rightarrow> ustring \<Rightarrow> ustring" where
  \<comment> \<open>\<open>s.rstrip(chars)\<close>\<close>
  "rstrip_chars chars s = rev (dropWhile (\<lambda>c. c \<in> set chars) (rev s))"

fun str_contains :: "ustring \<Rightarrow> ustring \<Rightarrow> bool" where
  \<comment> \<open>\<open>sub in s\<close>\<close>
  "str_contains sub [] = (sub = [])"
| "str_contains sub (c # cs) = (prefix sub (c # cs) \<or> str_contains sub cs)"

fun str_split :: "uchar \<Rightarrow> ustring \<Rightarrow> ustring list" where
  \<comment> \<open>\<open>s.split(sep)\<close> for a separator of one code point\<close>
  "str_split sep [] = [[]]"
| "str_split sep (c # cs) =
    (if c = sep then [] # str_split sep cs
     else (case str_split sep cs of [] \<Rightarrow> [[c]] | l # ls \<Rightarrow> (c # l) # ls))"

definition str_split1 :: "uchar \<Rightarrow> ustring \<Rightarrow> ustring list" where
  \<comment> \<open>\<open>s.split(sep, 1)\<close>: at most one split, at the first separator\<close>
  "str_split1 sep s =
    (if sep \<in> set s then [takeWhile (\<lambda>c. c \<noteq> sep) s, drop 1 (dropWhile (\<lambda>c. c \<noteq> sep) s)]
     else [s])"

fun str_join :: "ustring \<Rightarrow> ustring list \<Rightarrow> ustring" where
  \<comment> \<open>\<open>sep.join(xs)\<close>\<close>
  "str_join sep [] = []"
| "str_join sep [x] = x"
| "str_join sep (x # y # ys) = x @ sep @ str_join sep (y # ys)"

subsection \<open>Regular expressions\<close>

text \<open>
  The patterns of the source use literals, character classes, \<open>\s\<close>, \<open>\d\<close>, \<open>*\<close>
  on a single character, \<open>?\<close>, concatenation and alternation. The source only tests
  whether \<open>re.match\<close> or \<open>re.search\<close> finds a match, so a matcher that lists every
  way to match a prefix (by what is left of the string) decides the same question as the
  backtracking of the runtime. The flag \<open>ic\<close> is \<open>(?i)\<close>.
\<close>

datatype atom = Chr uchar | OneOf "uchar list" | Space | Digit

datatype regex = Eps | Atom atom | Star atom | Opt regex | Cat regex regex | Alt regex regex

fun atom_ok :: "bool \<Rightarrow> atom \<Rightarrow> uchar \<Rightarrow> bool" where
  "atom_ok ic (Chr c) x = (if ic then lower_char x = lower_char c else x = c)"
| "atom_ok ic (OneOf cs) x =
    (if ic then lower_char x \<in> set (map lower_char cs) else x \<in> set cs)"
| "atom_ok ic Space x = py_isspace x"
| "atom_ok ic Digit x = is_digit x"

fun star_rests :: "bool \<Rightarrow> atom \<Rightarrow> ustring \<Rightarrow> ustring list" where
  "star_rests ic a [] = [[]]"
| "star_rests ic a (x # xs) =
    (if atom_ok ic a x then star_rests ic a xs @ [x # xs] else [x # xs])"

fun rests :: "bool \<Rightarrow> regex \<Rightarrow> ustring \<Rightarrow> ustring list" where
  "rests ic Eps s = [s]"
| "rests ic (Atom a) s = (case s of [] \<Rightarrow> [] | x # xs \<Rightarrow> if atom_ok ic a x then [xs] else [])"
| "rests ic (Star a) s = star_rests ic a s"
| "rests ic (Opt r) s = rests ic r s @ [s]"
| "rests ic (Cat r1 r2) s = concat (map (rests ic r2) (rests ic r1 s))"
| "rests ic (Alt r1 r2) s = rests ic r1 s @ rests ic r2 s"

definition re_match :: "bool \<Rightarrow> regex \<Rightarrow> ustring \<Rightarrow> bool" where
  \<comment> \<open>\<open>bool(re.match(pat, s))\<close>: some prefix of \<open>s\<close> matches\<close>
  "re_match ic r s = (rests ic r s \<noteq> [])"

fun re_search :: "bool \<Rightarrow> regex \<Rightarrow> ustring \<Rightarrow> bool" where
  \<comment> \<open>\<open>bool(re.search(pat, s))\<close>: a match starts somewhere in \<open>s\<close>\<close>
  "re_search ic r [] = re_match ic r []"
| "re_search ic r (c # cs) = (re_match ic r (c # cs) \<or> re_search ic r cs)"

definition lit :: "string \<Rightarrow> regex" where
  \<comment> \<open>a run of literal ASCII characters\<close>
  "lit s = foldr (\<lambda>c r. Cat (Atom (Chr (of_char c))) r) s Eps"

definition cat :: "regex list \<Rightarrow> regex" where
  "cat rs = foldr Cat rs Eps"

section \<open>The helpers of the parser\<close>

text \<open>
  \<open>_SECTION_PATTERNS\<close>, all under \<open>(?i)\<close> and anchored at the start by
  \<open>re.match\<close>. The classes are \<open>[o|\<eacute>]\<close>, \<open>[e\<ecirc>]\<close>, \<open>[\<ccedil>c]\<close>,
  \<open>[a\<atilde>]\<close> and \<open>[o\<otilde>]\<close> (U+00E9, U+00EA, U+00E7, U+00E3, U+00F5).
\<close>

definition SECTION_PATTERNS :: "regex list" where
  "SECTION_PATTERNS =
    [cat [lit ''resum'', Atom (OneOf [0x6F, 0x7C, 0xE9]), Star Space, lit ''profissional''],
     cat [lit ''experi'', Atom (OneOf [0x65, 0xEA]), lit ''ncia'', Star Space,
          lit ''profissional''],
     cat [lit ''forma'', Atom (OneOf [0xE7, 0x63]), Atom (OneOf [0x61, 0xE3]), lit ''o'',
          Star Space, lit ''acad'', Atom (OneOf [0x65, 0xEA]), lit ''mica''],
     lit ''habilidades'',
     cat [lit ''compet'', Atom (OneOf [0x65, 0xEA]), lit ''ncias''],
     cat [lit ''software'', Opt (lit ''s''), Star Space,
          Opt (cat [lit ''e'', Star Space, lit ''ferramentas''])],
     lit ''ferramentas'',
     lit ''idiomas'',
     cat [lit ''certifica'', Atom (OneOf [0xE7, 0x63]), Atom (OneOf [0x6F, 0xF5]), lit ''es''],
     lit ''cursos'',
     lit ''projetos'',
     lit ''objetivo'',
     cat [lit ''informa'', Atom (OneOf [0xE7, 0x63]), Atom (OneOf [0x6F, 0xF5]), lit ''e'',
          Opt (lit ''s''), Star Space,
          Alt (lit ''adicionais'') (Alt (lit ''pessoais'') (lit ''complementares''))],
     cat [lit ''link'', Opt (lit ''s''), Star Space,
          Opt (cat [lit ''e'', Star Space, lit ''refer'', Atom (OneOf [0x65, 0xEA]),
                    lit ''ncias''])],
     cat [lit ''refer'', Atom (OneOf [0x65, 0xEA]), lit ''ncias''],
     lit ''atividades'',
     cat [lit ''trabalho'', Opt (lit ''s''), Star Space, lit ''volunt'']]"

definition colon :: uchar where
  "colon = 0x3A"

definition extract_section_title :: "ustring \<Rightarrow> (ustring \<times> ustring) option" where
  "extract_section_title line =
    (let stripped = strip line in
     if colon \<in> set stripped then
       do {
         let parts = str_split1 colon stripped;
         p0 \<leftarrow> py_index parts 0;
         let title_part = strip p0;
         content_part \<leftarrow>
           (if length parts > 1 then map_option strip (py_index parts 1) else Some []);
         if length content_part > 10 then Some (title_part, content_part)
         else Some (rstrip_chars [colon] stripped, [])
       }
     else Some (rstrip_chars [colon] stripped, []))"

definition is_section_header :: "ustring \<Rightarrow> bool option" where
  "is_section_header line =
    (let stripped = strip line in
     do {
       title_part \<leftarrow>
         (if colon \<in> set stripped
          then map_option strip (py_index (str_split1 colon stripped) 0)
          else Some stripped);
       let title_part = rstrip_chars [colon] title_part;
       if title_part = [] then Some False
       else if py_isupper title_part \<and> length title_part < 60 then Some True
       else Some (list_ex (\<lambda>pat. re_match True pat title_part) SECTION_PATTERNS)
     })"

definition bullet_markers :: "uchar list" where
  \<comment> \<open>the bullet sign, \<open>-\<close>, en dash, em dash, \<open>*\<close>, pointer, small square, black circle\<close>
  "bullet_markers = [0x2022, 0x2D, 0x2013, 0x2014, 0x2A, 0x25BA, 0x25AA, 0x25CF]"

definition is_bullet :: "ustring \<Rightarrow> bool option" where
  "is_bullet line =
    (let stripped = strip line in
     if stripped = [] then Some False
     else do { c \<leftarrow> py_index stripped 0; Some (c \<in> set bullet_markers) })"

definition clean_bullet_text :: "ustring \<Rightarrow> ustring option" where
  "clean_bullet_text line =
    (let stripped = strip line in
     if stripped = [] then Some stripped
     else do {
       c \<leftarrow> py_index stripped 0;
       if c \<in> set bullet_markers then Some (strip (drop 1 stripped)) else Some stripped
     })"

definition contact_keywords :: "ustring list" where
  "contact_keywords =
    [ascii ''@'', ascii ''linkedin'', ascii ''github'', ascii ''telefone'', ascii ''tel:'',
     ascii ''fone:'', ascii ''celular'']"

definition phone_pattern :: regex where
  \<comment> \<open>\<open>\(\d{2}\)\s*\d{4,5}\<close>\<close>
  "phone_pattern =
    cat [lit ''('', Atom Digit, Atom Digit, lit '')'', Star Space,
         Atom Digit, Atom Digit, Atom Digit, Atom Digit, Opt (Atom Digit)]"

definition is_contact_line :: "ustring \<Rightarrow> bool" where
  "is_contact_line line =
    (let lower = py_lower line in
     list_ex (\<lambda>kw. str_contains kw lower) contact_keywords
     \<or> re_search False phone_pattern line)"

section \<open>The document model\<close>

text \<open>
  The parser returns a list of dicts tagged by \<open>"type"\<close>: \<open>name\<close> and \<open>contact\<close>
  with a \<open>content\<close>, \<open>section\<close> with a \<open>title\<close> and \<open>items\<close>; an item is tagged
  \<open>paragraph\<close>, \<open>bullet\<close> or \<open>job_title\<close> and always has a \<open>text\<close>.
\<close>

datatype item = Paragraph ustring | Bullet ustring | JobTitle ustring

datatype block = NameBlock ustring | ContactBlock ustring | SectionBlock ustring "item list"

fun item_text :: "item \<Rightarrow> ustring" where
  "item_text (Paragraph t) = t"
| "item_text (Bullet t) = t"
| "item_text (JobTitle t) = t"

fun is_bullet_item :: "item \<Rightarrow> bool" where
  "is_bullet_item (Bullet t) = True"
| "is_bullet_item it = False"

text \<open>
  \<open>current_section\<close> of the source is \<open>None\<close> or an alias of a section dict that is
  also an element of \<open>sections\<close>; appending to its items changes that element. The
  state keeps the alias as the index of the element.
\<close>

record pstate =
  sections :: "block list"
  current_section :: "nat option"

definition open_section :: "pstate \<Rightarrow> ustring \<Rightarrow> pstate" where
  \<comment> \<open>\<open>current_section = {"type": "section", "title": title, "items": []};
      sections.append(current_section)\<close>\<close>
  "open_section st title =
    \<lparr>sections = sections st @ [SectionBlock title []],
     current_section = Some (length (sections st))\<rparr>"

definition append_item :: "pstate \<Rightarrow> item \<Rightarrow> pstate option" where
  \<comment> \<open>\<open>current_section["items"].append(it)\<close>\<close>
  "append_item st it =
    (case current_section st of
       None \<Rightarrow> None
     | Some i \<Rightarrow>
        (case py_index (sections st) i of
           Some (SectionBlock title items) \<Rightarrow>
             Some (st\<lparr>sections := (sections st)[i := SectionBlock title (items @ [it])]\<rparr>)
         | _ \<Rightarrow> None))"

section \<open>The parser\<close>

definition newline :: uchar where
  "newline = 0x0A"

definition bar :: uchar where
  "bar = 0x7C"

function skip_blank :: "ustring list \<Rightarrow> nat \<Rightarrow> nat option" where
  \<comment> \<open>\<open>while idx < len(lines) and not lines[idx].strip(): idx += 1\<close>\<close>
  "skip_blank lines idx =
    (if idx < length lines then
       do {
         l \<leftarrow> py_index lines idx;
         if strip l = [] then skip_blank lines (idx + 1) else Some idx
       }
     else Some idx)"
  by pat_completeness auto
termination
  by (relation "measure (\<lambda>(lines, idx). length lines - idx)") auto

definition absorbs :: "ustring \<Rightarrow> ustring list \<Rightarrow> nat option \<Rightarrow> bool option" where
  \<comment> \<open>the condition of the contact loop, \<open>or\<close> and \<open>and\<close> evaluated left to right\<close>
  "absorbs line contact_lines cur =
    (if is_contact_line line then Some True
     else do {
       header \<leftarrow> is_section_header line;
       if header \<or> \<not> length contact_lines < 3 then Some False
       else do {
         bullet \<leftarrow> is_bullet line;
         Some (\<not> bullet \<and> length line < 120 \<and> cur = None)
       }
     })"

function contact_loop ::
  "ustring list \<Rightarrow> nat \<Rightarrow> ustring list \<Rightarrow> nat option \<Rightarrow> (ustring list \<times> nat) option" where
  "contact_loop lines idx contact_lines cur =
    (if idx < length lines then
       do {
         l \<leftarrow> py_index lines idx;
         let line = strip l;
         if line = [] then contact_loop lines (idx + 1) contact_lines cur
         else do {
           a \<leftarrow> absorbs line contact_lines cur;
           if a then contact_loop lines (idx + 1) (contact_lines @ [line]) cur
           else Some (contact_lines, idx)
         }
       }
     else Some (contact_lines, idx))"
  by pat_completeness auto
termination
  by (relation "measure (\<lambda>(lines, idx, contact_lines, cur). length lines - idx)") auto

definition body_line :: "pstate \<Rightarrow> ustring \<Rightarrow> pstate option" where
  \<comment> \<open>the body of the last loop, for a stripped line that is not empty\<close>
  "body_line st line =
    do {
      header \<leftarrow> is_section_header line;
      if header then
        do {
          (title, inline_content) \<leftarrow> extract_section_title line;
          let st = open_section st title;
          if inline_content \<noteq> [] then append_item st (Paragraph inline_content) else Some st
        }
      else
        do {
          bullet \<leftarrow> is_bullet line;
          if bullet then
            do {
              text \<leftarrow> clean_bullet_text line;
              if current_section st \<noteq> None then append_item st (Bullet text)
              else append_item (open_section st []) (Bullet text)
            }
          else if current_section st \<noteq> None then
            (if bar \<in> set line \<and> length line < 120 then append_item st (JobTitle line)
             else append_item st (Paragraph line))
          else append_item (open_section st []) (Paragraph line)
        }
    }"

function body_loop :: "ustring list \<Rightarrow> nat \<Rightarrow> pstate \<Rightarrow> pstate option" where
  "body_loop lines idx st =
    (if idx < length lines then
       do {
         l \<leftarrow> py_index lines idx;
         let line = strip l;
         if line = [] then body_loop lines (idx + 1) st
         else do { st' \<leftarrow> body_line st line; body_loop lines (idx + 1) st' }
       }
     else Some st)"
  by pat_completeness auto
termination
  by (relation "measure (\<lambda>(lines, idx, st). length lines - idx)") auto

definition contact_separator :: ustring where
  "contact_separator = ascii '' | ''"

definition parse_resume_sections :: "ustring \<Rightarrow> block list option" where
  "parse_resume_sections text =
    (let lines = str_split newline text in
     do {
       idx \<leftarrow> skip_blank lines 0;
       (secs, idx) \<leftarrow>
         (if idx < length lines
          then do { l \<leftarrow> py_index lines idx; Some ([NameBlock (strip l)], idx + 1) }
          else Some ([], idx));
       (contact_lines, idx) \<leftarrow> contact_loop lines idx [] None;
       let secs =
         (if contact_lines \<noteq> []
          then secs @ [ContactBlock (str_join contact_separator contact_lines)] else secs);
       st \<leftarrow> body_loop lines idx \<lparr>sections = secs, current_section = None\<rparr>;
       Some (sections st)
     })"

section \<open>The layout of a section\<close>

datatype style =
  STYLE_NAME | STYLE_CONTACT | STYLE_BODY | STYLE_JOB_TITLE | STYLE_BULLET | STYLE_SKILL_ITEM

text \<open>
  The flowables the story is made of. A \<open>SkillsTable\<close> is the two-column \<open>Table\<close> of
  \<open>_build_skills_table\<close>: a list of rows, each the markup of its left and of its right
  paragraph (both of style \<open>STYLE_SKILL_ITEM\<close>).
\<close>

datatype flowable =
    Para ustring style
  | Spacer nat nat
  | SectionHeader ustring
  | BulletPoint ustring style
  | SkillsTable "(ustring \<times> ustring) list"

definition bullet_char :: ustring where
  "bullet_char =
    ascii ''<font color='' @ [34] @ ascii ''#1B2A4A'' @ [34] @ ascii ''>&#8226;</font>&nbsp;''"

definition skills_texts :: "item list \<Rightarrow> ustring list" where
  \<comment> \<open>\<open>texts = [it["text"] for it in items if it.get("text")]\<close>: an empty text is
      falsy, and every item has a text\<close>
  "skills_texts items = map item_text (filter (\<lambda>it. item_text it \<noteq> []) items)"

definition skills_columns :: "item list \<Rightarrow> ustring list \<times> ustring list" where
  \<comment> \<open>\<open>col1 = texts[:mid]\<close> and \<open>col2 = texts[mid:]\<close>, before the padding\<close>
  "skills_columns items =
    (let texts = skills_texts items;
         mid = (length texts + 1) div 2
     in (take mid texts, drop mid texts))"

function pad_column :: "ustring list \<Rightarrow> nat \<Rightarrow> ustring list" where
  \<comment> \<open>\<open>while len(col) < n: col.append("")\<close>\<close>
  "pad_column col n = (if length col < n then pad_column (col @ [[]]) n else col)"
  by pat_completeness auto
termination
  by (relation "measure (\<lambda>(col, n). n - length col)") auto

definition skill_cell :: "ustring \<Rightarrow> ustring" where
  \<comment> \<open>\<open>f"{bullet_char}{t}" if t else ""\<close>\<close>
  "skill_cell t = (if t \<noteq> [] then bullet_char @ t else [])"

definition build_skills_table :: "item list \<Rightarrow> flowable" where
  "build_skills_table items =
    (let (col1, col2) = skills_columns items;
         col1 = pad_column col1 (length col2);
         col2 = pad_column col2 (length col1)
     in SkillsTable (map (\<lambda>(left, right). (skill_cell left, skill_cell right)) (zip col1 col2)))"

definition skill_keywords :: "ustring list" where
  "skill_keywords =
    [ascii ''habilidade'', ascii ''compet'' @ [0xEA] @ ascii ''ncia'', ascii ''competencia'',
     ascii ''software'', ascii ''ferramenta'']"

definition is_skills :: "ustring \<Rightarrow> bool" where
  "is_skills title = list_ex (\<lambda>kw. str_contains kw (py_lower title)) skill_keywords"

definition all_bullets :: "item list \<Rightarrow> bool" where
  \<comment> \<open>\<open>all(it["type"] == "bullet" for it in items) if items else False\<close>\<close>
  "all_bullets items = (if items \<noteq> [] then list_all is_bullet_item items else False)"

fun render_item :: "item \<Rightarrow> flowable" where
  "render_item (Bullet t) = BulletPoint t STYLE_BULLET"
| "render_item (JobTitle t) = Para t STYLE_JOB_TITLE"
| "render_item (Paragraph t) = Para t STYLE_BODY"

definition render_section :: "ustring \<Rightarrow> item list \<Rightarrow> flowable list" where
  \<comment> \<open>the branch \<open>stype == "section"\<close> of \<open>generate_resume_pdf\<close>\<close>
  "render_section title items =
    (if title \<noteq> [] then [Spacer 1 4, SectionHeader title, Spacer 1 6] else [])
    @ (if is_skills title \<and> all_bullets items \<and> length items \<ge> 4
       then [build_skills_table items]
       else map render_item items)"

fun render_block :: "block \<Rightarrow> flowable list" where
  "render_block (NameBlock content) = [Para (py_upper content) STYLE_NAME]"
| "render_block (ContactBlock content) = [Para content STYLE_CONTACT, Spacer 1 4]"
| "render_block (SectionBlock title items) = render_section title items"

definition resume_story :: "ustring \<Rightarrow> flowable list option" where
  \<comment> \<open>the \<open>story\<close> that \<open>generate_resume_pdf\<close> hands to \<open>doc.build\<close>\<close>
  "resume_story resume_text =
    do {
      secs \<leftarrow> parse_resume_sections (sanitize_text resume_text);
      Some (concat (map render_block secs))
    }"

definition section_heading :: "ustring \<Rightarrow> flowable list" where
  \<comment> \<open>what \<open>render_section\<close> puts before the items: \<open>if title: ...\<close>\<close>
  "section_heading title =
    (if title \<noteq> [] then [Spacer 1 4, SectionHeader title, Spacer 1 6] else [])"

fun is_section_block :: "block \<Rightarrow> bool" where
  "is_section_block (SectionBlock title items) = True"
| "is_section_block b = False"

fun is_table :: "flowable \<Rightarrow> bool" where
  "is_table (SkillsTable rows) = True"
| "is_table f = False"

fun table_rows :: "flowable \<Rightarrow> (ustring \<times> ustring) list" where
  "table_rows (SkillsTable rows) = rows"
| "table_rows f = []"

section \<open>Header detection as the specification words it\<close>

text \<open>
  The specification's header rule, to be compared with \<open>is_section_header\<close>: the title
  is the line without its \<open>:\<close>-delimited trailing content; a header has a non-empty
  title that is upper-case and shorter than 60 characters, or that matches one of the
  section names \<open>names\<close>.
\<close>

definition header_title :: "ustring \<Rightarrow> ustring" where
  "header_title line = strip (takeWhile (\<lambda>c. c \<noteq> colon) (strip line))"

definition header_spec :: "regex list \<Rightarrow> ustring \<Rightarrow> bool" where
  "header_spec names line =
    (let title = header_title line in
     title \<noteq> [] \<and>
     ((py_isupper title \<and> length title < 60) \<or> list_ex (\<lambda>pat. re_match True pat title) names))"

text \<open>
  The specification lists fourteen names: experience, education, skills, tools, languages,
  certifications, courses, projects, objective, additional info, links, references,
  activities and volunteer work. They are the patterns of \<open>_SECTION_PATTERNS\<close> from the
  second on (skills and tools have two patterns each); the first pattern,
  \<open>resumo profissional\<close> (professional summary), has no name in that list.
\<close>

definition listed_section_names :: "regex list" where
  "listed_section_names = tl SECTION_PATTERNS"

definition inline_content :: "ustring \<Rightarrow> ustring" where
  \<comment> \<open>what follows the first \<open>:\<close> of a line\<close>
  "inline_content line = strip (drop 1 (dropWhile (\<lambda>c. c \<noteq> colon) (strip line)))"

section \<open>Invariants of the loops\<close>

text \<open>
  The contact loop keeps \<open>contact_inv\<close>: from the fourth collected line on, every line
  is one that \<open>is_contact_line\<close> accepts. The body loop keeps \<open>wf_state n\<close>: the
  first \<open>n\<close> blocks are left alone, every later block is a section, and
  \<open>current_section\<close> points at one of the later blocks.
\<close>

definition contact_inv :: "ustring list \<Rightarrow> bool" where
  "contact_inv cl = list_all is_contact_line (drop 3 cl)"

definition wf_state :: "nat \<Rightarrow> pstate \<Rightarrow> bool" where
  "wf_state n st =
    (n \<le> length (sections st) \<and> list_all is_section_block (drop n (sections st)) \<and>
     (case current_section st of None \<Rightarrow> True | Some i \<Rightarrow> n \<le> i \<and> i < length (sections st)))"

declare skip_blank.simps [simp del]
declare contact_loop.simps [simp del]
declare body_loop.simps [simp del]
declare pad_column.simps [simp del]

section \<open>The sanitizer is idempotent\<close>

lemma replacements_eval:
  "replacements =
    [(0x2013, [45]), (0x2014, [45]), (0x2015, [45]), (0x2018, [39]), (0x2019, [39]),
     (0x201C, [34]), (0x201D, [34]), (0x2022, [45]), (0x2026, [46, 46, 46]),
     (0x00A0, [32]), (0x200B, []), (0x00AD, [45]), (0xFEFF, []), (0x2010, [45]),
     (0x2011, [45]), (0x2012, [45]), (0x2500, [45]), (0x25AA, [45]), (0x25BA, [45]),
     (0x25CF, [45])]"
  by (simp add: replacements_def replacements_literal_def ascii_def)

lemma set_str_replace: "set (str_replace old new t) \<subseteq> (set t - {old}) \<union> set new"
  by (induction t) (auto simp: str_replace_def)

lemma str_replace_absent: "old \<notin> set t \<Longrightarrow> str_replace old new t = t"
  by (induction t) (auto simp: str_replace_def)

lemma fold_replace_absent:
  "set t \<inter> fst ` set rs = {} \<Longrightarrow> foldl (\<lambda>t (old, new). str_replace old new t) t rs = t"
proof (induction rs arbitrary: t)
  case Nil
  then show ?case by simp
next
  case (Cons r rs)
  obtain k v where r: "r = (k, v)" by (cases r)
  from Cons.prems have "k \<notin> set t" and rest: "set t \<inter> fst ` set rs = {}"
    by (auto simp: r)
  then have "str_replace k v t = t" by (simp add: str_replace_absent)
  with Cons.IH [OF rest] show ?case by (simp add: r)
qed

lemma fold_replace_clears:
  assumes "\<forall>(k, v) \<in> set rs. set v \<inter> B = {}"
    and "set t \<inter> A = {}" and "A \<subseteq> B" and "fst ` set rs \<subseteq> B"
  shows "set (foldl (\<lambda>t (old, new). str_replace old new t) t rs) \<inter> (A \<union> fst ` set rs) = {}"
  using assms
proof (induction rs arbitrary: t A)
  case Nil
  then show ?case by simp
next
  case (Cons r rs)
  obtain k v where r: "r = (k, v)" by (cases r)
  have v: "set v \<inter> B = {}" and k: "k \<in> B" using Cons.prems by (auto simp: r)
  have step: "set (str_replace k v t) \<inter> (insert k A) = {}"
    using set_str_replace [of k v t] Cons.prems(2,3) v k by auto
  have "set (foldl (\<lambda>t (old, new). str_replace old new t) (str_replace k v t) rs)
          \<inter> (insert k A \<union> fst ` set rs) = {}"
  proof (rule Cons.IH [OF _ step])
    show "\<forall>(k, v) \<in> set rs. set v \<inter> B = {}" using Cons.prems(1) by simp
    show "insert k A \<subseteq> B" using k Cons.prems(3) by simp
    show "fst ` set rs \<subseteq> B" using Cons.prems(4) by simp
  qed
  then show ?case by (simp add: r Un_commute insert_commute)
qed

lemma sanitize_text_clean: "set (sanitize_text x) \<inter> fst ` set replacements = {}"
proof -
  have "\<forall>(k, v) \<in> set replacements. set v \<inter> fst ` set replacements = {}"
    by (simp add: replacements_eval)
  from fold_replace_clears [OF this, of x "{}"] show ?thesis
    by (simp add: sanitize_text_def)
qed

text \<open>
  C4. Sanitizing a sanitized string changes nothing: after one pass no key of the table
  is left in the text, since no replacement text contains a key.
\<close>

theorem sanitize_text_idempotent: "sanitize_text (sanitize_text x) = sanitize_text x"
  unfolding sanitize_text_def [of "sanitize_text x"]
  by (rule fold_replace_absent) (rule sanitize_text_clean)

theorem sanitize_text_idempotent_witness:
  "sanitize_text (sanitize_text [0x2026, 97, 0x2014, 0x200B, 98])
     = sanitize_text [0x2026, 97, 0x2014, 0x200B, 98]
   \<and> sanitize_text [0x2026, 97, 0x2014, 0x200B, 98] = ascii ''...a-b''"
  using sanitize_text_idempotent [of "[0x2026, 97, 0x2014, 0x200B, 98]"]
  by (simp add: sanitize_text_def replacements_eval str_replace_def ascii_def)

section \<open>Stripping and splitting\<close>

lemma py_index_Some: "i < length xs \<Longrightarrow> py_index xs i = Some (xs ! i)"
  by (simp add: py_index_def)

lemma set_strip: "set (strip s) \<subseteq> set s"
proof
  fix x assume "x \<in> set (strip s)"
  then have "x \<in> set (dropWhile py_isspace (rev (dropWhile py_isspace s)))"
    by (simp add: strip_def)
  then have "x \<in> set (rev (dropWhile py_isspace s))" by (rule set_dropWhileD)
  then have "x \<in> set (dropWhile py_isspace s)" by simp
  then show "x \<in> set s" by (rule set_dropWhileD)
qed

lemma last_dropWhile_keep: "dropWhile P xs \<noteq> [] \<Longrightarrow> last (dropWhile P xs) = last xs"
  by (induction xs) auto

lemma strip_ends:
  "strip s = [] \<or> (\<not> py_isspace (hd (strip s)) \<and> \<not> py_isspace (last (strip s)))"
proof (cases "strip s = []")
  case True
  then show ?thesis by simp
next
  case False
  define t where "t = dropWhile py_isspace s"
  define w where "w = dropWhile py_isspace (rev t)"
  have s: "strip s = rev w" by (simp add: strip_def t_def w_def)
  with False have w: "w \<noteq> []" by simp
  then have t: "t \<noteq> []" by (auto simp: w_def)
  have "\<not> py_isspace (hd w)" using w unfolding w_def by (rule hd_dropWhile)
  moreover have "last w = hd t"
    using last_dropWhile_keep [of py_isspace "rev t"] w t by (simp add: w_def last_rev)
  moreover have "\<not> py_isspace (hd t)" using t unfolding t_def by (rule hd_dropWhile)
  ultimately show ?thesis using w by (simp add: s hd_rev last_rev)
qed

lemma strip_fixed:
  assumes "u = [] \<or> (\<not> py_isspace (hd u) \<and> \<not> py_isspace (last u))"
  shows "strip u = u"
proof (cases "u = []")
  case True
  then show ?thesis by (simp add: strip_def)
next
  case False
  with assms have h: "\<not> py_isspace (hd u)" and l: "\<not> py_isspace (last u)" by auto
  have "dropWhile py_isspace u = u" using False h by (cases u) auto
  moreover have "dropWhile py_isspace (rev u) = rev u"
    using False l by (cases "rev u") (auto simp: last_rev [symmetric] hd_rev)
  ultimately show ?thesis by (simp add: strip_def)
qed

lemma strip_strip: "strip (strip s) = strip s"
  by (rule strip_fixed) (rule strip_ends)

lemma rstrip_chars_absent: "set chars \<inter> set s = {} \<Longrightarrow> rstrip_chars chars s = s"
proof -
  assume a: "set chars \<inter> set s = {}"
  have "dropWhile (\<lambda>c. c \<in> set chars) (rev s) = rev s"
    using a by (cases "rev s") (auto simp: disjoint_iff)
  then show ?thesis by (simp add: rstrip_chars_def)
qed

lemma takeWhile_absent: "sep \<notin> set s \<Longrightarrow> takeWhile (\<lambda>c. c \<noteq> sep) s = s"
  by (induction s) auto

lemma str_split1_first: "py_index (str_split1 sep s) 0 = Some (takeWhile (\<lambda>c. c \<noteq> sep) s)"
  by (simp add: str_split1_def py_index_def takeWhile_absent)

lemma str_split1_second:
  "sep \<in> set s \<Longrightarrow>
    py_index (str_split1 sep s) (Suc 0) = Some (drop (Suc 0) (dropWhile (\<lambda>c. c \<noteq> sep) s))"
  by (simp add: str_split1_def py_index_def)

lemma str_split1_length: "sep \<in> set s \<Longrightarrow> length (str_split1 sep s) = 2"
  by (simp add: str_split1_def)

lemma colon_not_in_title: "colon \<notin> set (strip (takeWhile (\<lambda>c. c \<noteq> colon) s))"
proof
  assume "colon \<in> set (strip (takeWhile (\<lambda>c. c \<noteq> colon) s))"
  then have "colon \<in> set (takeWhile (\<lambda>c. c \<noteq> colon) s)" using set_strip by blast
  then show False by (auto dest: set_takeWhileD)
qed

lemma header_title_no_colon: "colon \<notin> set (header_title line)"
  unfolding header_title_def by (rule colon_not_in_title)

lemma title_part_eq:
  "(if colon \<in> set (strip line)
    then map_option strip (py_index (str_split1 colon (strip line)) 0)
    else Some (strip line)) = Some (header_title line)"
proof (cases "colon \<in> set (strip line)")
  case True
  then show ?thesis by (simp add: str_split1_first header_title_def)
next
  case False
  then show ?thesis by (simp add: header_title_def strip_strip takeWhile_absent)
qed

lemma is_section_header_eq:
  "is_section_header line = Some (header_spec SECTION_PATTERNS line)"
proof -
  have r: "rstrip_chars [colon] (header_title line) = header_title line"
    by (rule rstrip_chars_absent) (simp add: header_title_no_colon)
  show ?thesis
    unfolding is_section_header_def Let_def title_part_eq
    by (auto simp: r header_spec_def Let_def)
qed

lemma extract_section_title_eq:
  "extract_section_title line =
    Some (if colon \<in> set (strip line)
             \<and> 10 < length (strip (drop 1 (dropWhile (\<lambda>c. c \<noteq> colon) (strip line))))
          then (header_title line, strip (drop 1 (dropWhile (\<lambda>c. c \<noteq> colon) (strip line))))
          else (rstrip_chars [colon] (strip line), []))"
  by (simp add: extract_section_title_def Let_def str_split1_first str_split1_second
      str_split1_length header_title_def)

lemma is_bullet_eq:
  "is_bullet line = Some (strip line \<noteq> [] \<and> hd (strip line) \<in> set bullet_markers)"
  by (cases "strip line") (simp_all add: is_bullet_def Let_def py_index_def)

lemma clean_bullet_text_eq:
  "clean_bullet_text line =
    Some (if strip line \<noteq> [] \<and> hd (strip line) \<in> set bullet_markers
          then strip (drop 1 (strip line)) else strip line)"
  by (cases "strip line") (simp_all add: clean_bullet_text_def Let_def py_index_def)

lemma absorbs_eq:
  "absorbs line contact_lines cur =
    Some (is_contact_line line \<or>
          (\<not> header_spec SECTION_PATTERNS line \<and> length contact_lines < 3
           \<and> \<not> (strip line \<noteq> [] \<and> hd (strip line) \<in> set bullet_markers)
           \<and> length line < 120 \<and> cur = None))"
  by (auto simp: absorbs_def is_section_header_eq is_bullet_eq)

section \<open>The loops return\<close>

lemma skip_blank_total: "\<exists>j. skip_blank lines idx = Some j"
proof (induction lines idx rule: skip_blank.induct)
  case (1 lines idx)
  show ?case
  proof (cases "idx < length lines")
    case False
    then show ?thesis by (simp add: skip_blank.simps)
  next
    case True
    then have i: "py_index lines idx = Some (lines ! idx)" by (rule py_index_Some)
    show ?thesis
    proof (cases "strip (lines ! idx) = []")
      case blank: True
      from "1.IH" [OF True i blank] obtain j where "skip_blank lines (idx + 1) = Some j" ..
      then show ?thesis using True i blank by (subst skip_blank.simps) simp
    next
      case False
      then show ?thesis using True i by (subst skip_blank.simps) simp
    qed
  qed
qed

lemma contact_inv_snoc:
  assumes "contact_inv cl" and "is_contact_line line \<or> length cl < 3"
  shows "contact_inv (cl @ [line])"
proof -
  have "list_all is_contact_line (drop (3 - length cl) [line])"
    using assms(2) by (cases "3 - length cl") auto
  with assms(1) show ?thesis by (simp add: contact_inv_def)
qed

lemma contact_loop_inv:
  "contact_inv acc \<Longrightarrow> \<exists>cl j. contact_loop lines idx acc cur = Some (cl, j) \<and> contact_inv cl"
proof (induction lines idx acc cur rule: contact_loop.induct)
  case (1 lines idx acc cur)
  show ?case
  proof (cases "idx < length lines")
    case False
    then show ?thesis using "1.prems" by (simp add: contact_loop.simps)
  next
    case True
    then have i: "py_index lines idx = Some (lines ! idx)" by (rule py_index_Some)
    define line where "line = strip (lines ! idx)"
    show ?thesis
    proof (cases "line = []")
      case blank: True
      from "1.IH"(1) [OF True i line_def blank "1.prems"]
      show ?thesis using True i blank by (subst contact_loop.simps) (simp add: line_def)
    next
      case False
      obtain a where a: "absorbs line acc cur = Some a" by (simp add: absorbs_eq)
      show ?thesis
      proof (cases a)
        case absorbed: True
        from a absorbed have "is_contact_line line \<or> length acc < 3"
          by (auto simp: absorbs_eq)
        with "1.prems" have "contact_inv (acc @ [line])" by (rule contact_inv_snoc)
        from "1.IH"(2) [OF True i line_def False a absorbed this]
        show ?thesis using True i False a absorbed
          by (subst contact_loop.simps) (simp add: line_def [symmetric])
      next
        case False
        then show ?thesis using True i \<open>line \<noteq> []\<close> a "1.prems"
          by (subst contact_loop.simps) (simp add: line_def [symmetric])
      qed
    qed
  qed
qed


lemma wf_open_section:
  assumes "wf_state n st"
  shows "wf_state n (open_section st title)"
    and "current_section (open_section st title) \<noteq> None"
    and "take n (sections (open_section st title)) = take n (sections st)"
  using assms by (simp_all add: wf_state_def open_section_def)

lemma wf_append_item:
  assumes "wf_state n st" and "current_section st \<noteq> None"
  shows "\<exists>st'. append_item st it = Some st' \<and> wf_state n st'
            \<and> take n (sections st') = take n (sections st)"
proof -
  from assms obtain i where i: "current_section st = Some i" by auto
  with assms(1) have n: "n \<le> i" and l: "i < length (sections st)"
    and all: "list_all is_section_block (drop n (sections st))"
    by (simp_all add: wf_state_def)
  have "drop n (sections st) ! (i - n) = sections st ! i" using n l by simp
  moreover have "i - n < length (drop n (sections st))" using n l by simp
  ultimately have "sections st ! i \<in> set (drop n (sections st))" by (metis nth_mem)
  with all have "is_section_block (sections st ! i)" by (simp add: list_all_iff)
  then obtain title items where b: "sections st ! i = SectionBlock title items"
    by (cases "sections st ! i") auto
  define st' where "st' = st\<lparr>sections := (sections st)[i := SectionBlock title (items @ [it])]\<rparr>"
  have "append_item st it = Some st'"
    by (simp add: append_item_def i py_index_Some l b st'_def)
  moreover have "take n (sections st') = take n (sections st)"
    using n by (simp add: st'_def)
  moreover have "wf_state n st'"
  proof -
    have "set (drop n (sections st')) \<subseteq>
        insert (SectionBlock title (items @ [it])) (set (drop n (sections st)))"
      using n by (simp add: st'_def drop_update_swap set_update_subset_insert)
    with all have "list_all is_section_block (drop n (sections st'))"
      by (auto simp: list_all_iff)
    then show ?thesis using assms(1) i by (simp add: wf_state_def st'_def)
  qed
  ultimately show ?thesis by blast
qed

lemma wf_open_append:
  assumes "wf_state n st"
  shows "\<exists>st'. append_item (open_section st title) it = Some st' \<and> wf_state n st'
            \<and> take n (sections st') = take n (sections st)"
proof -
  have w: "wf_state n (open_section st title)"
    and c: "current_section (open_section st title) \<noteq> None"
    and t: "take n (sections (open_section st title)) = take n (sections st)"
    using wf_open_section [OF assms] by blast+
  from wf_append_item [OF w c] t show ?thesis by simp
qed

lemma wf_body_line:
  assumes "wf_state n st"
  shows "\<exists>st'. body_line st line = Some st' \<and> wf_state n st'
            \<and> take n (sections st') = take n (sections st)"
proof (cases "header_spec SECTION_PATTERNS line")
  case header: True
  obtain p where "extract_section_title line = Some p"
    by (simp add: extract_section_title_eq)
  then obtain title inline where e: "extract_section_title line = Some (title, inline)"
    by (cases p) simp
  have b: "body_line st line =
      (if inline \<noteq> [] then append_item (open_section st title) (Paragraph inline)
       else Some (open_section st title))"
    by (simp add: body_line_def is_section_header_eq header e)
  show ?thesis
  proof (cases "inline = []")
    case True
    with wf_open_section [OF assms, of title] show ?thesis by (simp add: b)
  next
    case False
    with wf_open_append [OF assms, of title "Paragraph inline"] show ?thesis by (simp add: b)
  qed
next
  case plain: False
  show ?thesis
  proof (cases "current_section st = None")
    case True
    have "\<exists>it. body_line st line = append_item (open_section st []) it"
      by (auto simp: body_line_def is_section_header_eq plain is_bullet_eq
          clean_bullet_text_eq True)
    then obtain it where "body_line st line = append_item (open_section st []) it" ..
    with wf_open_append [OF assms, of "[]" it] show ?thesis by simp
  next
    case False
    have "\<exists>it. body_line st line = append_item st it"
      by (auto simp: body_line_def is_section_header_eq plain is_bullet_eq
          clean_bullet_text_eq False)
    then obtain it where "body_line st line = append_item st it" ..
    with wf_append_item [OF assms False, of it] show ?thesis by simp
  qed
qed

lemma body_loop_inv:
  "wf_state n st \<Longrightarrow> \<exists>st'. body_loop lines idx st = Some st' \<and> wf_state n st'
        \<and> take n (sections st') = take n (sections st)"
proof (induction lines idx st rule: body_loop.induct)
  case (1 lines idx st)
  show ?case
  proof (cases "idx < length lines")
    case False
    then show ?thesis using "1.prems" by (simp add: body_loop.simps)
  next
    case True
    then have i: "py_index lines idx = Some (lines ! idx)" by (rule py_index_Some)
    define line where "line = strip (lines ! idx)"
    show ?thesis
    proof (cases "line = []")
      case blank: True
      from "1.IH"(1) [OF True i line_def blank "1.prems"]
      show ?thesis using True i blank by (subst body_loop.simps) (simp add: line_def)
    next
      case False
      from wf_body_line [OF "1.prems", of line] obtain st1 where
        b: "body_line st line = Some st1" and w: "wf_state n st1"
        and t: "take n (sections st1) = take n (sections st)" by blast
      from "1.IH"(2) [OF True i line_def False b w]
      show ?thesis using True i False b t
        by (subst body_loop.simps) (simp add: line_def [symmetric])
    qed
  qed
qed

lemma parse_structure:
  "\<exists>head secs. parse_resume_sections text = Some (head @ secs)
      \<and> list_all is_section_block secs \<and> \<not> list_ex is_section_block head"
proof -
  define lines where "lines = str_split newline text"
  obtain j where j: "skip_blank lines 0 = Some j" using skip_blank_total by blast
  define head0 where "head0 = (if j < length lines then [NameBlock (strip (lines ! j))] else [])"
  define k0 where "k0 = (if j < length lines then j + 1 else j)"
  have "contact_inv []" by (simp add: contact_inv_def)
  from contact_loop_inv [OF this, of lines k0 None]
  obtain cl k where c: "contact_loop lines k0 [] None = Some (cl, k)" by blast
  define head where
    "head = head0 @ (if cl \<noteq> [] then [ContactBlock (str_join contact_separator cl)] else [])"
  have "wf_state (length head) \<lparr>sections = head, current_section = None\<rparr>"
    by (simp add: wf_state_def)
  from body_loop_inv [OF this, of lines k] obtain st' where
    b: "body_loop lines k \<lparr>sections = head, current_section = None\<rparr> = Some st'"
    and w: "wf_state (length head) st'" and t: "take (length head) (sections st') = head"
    by auto
  have p: "parse_resume_sections text = Some (sections st')"
  proof (cases "j < length lines")
    case True
    with c have c': "contact_loop lines (Suc j) [] None = Some (cl, k)" by (simp add: k0_def)
    from True b have b': "body_loop lines k
       \<lparr>sections = NameBlock (strip (lines ! j)) #
           (if cl \<noteq> [] then [ContactBlock (str_join contact_separator cl)] else []),
         current_section = None\<rparr> = Some st'"
      by (simp add: head_def head0_def)
    show ?thesis
      unfolding parse_resume_sections_def Let_def lines_def [symmetric]
      using True b' by (cases "cl = []") (simp_all add: j py_index_Some c')
  next
    case False
    with c have c': "contact_loop lines j [] None = Some (cl, k)" by (simp add: k0_def)
    from False b have b': "body_loop lines k
       \<lparr>sections = (if cl \<noteq> [] then [ContactBlock (str_join contact_separator cl)] else []),
         current_section = None\<rparr> = Some st'"
      by (simp add: head_def head0_def)
    show ?thesis
      unfolding parse_resume_sections_def Let_def lines_def [symmetric]
      using False b' by (cases "cl = []") (simp_all add: j c')
  qed
  have "sections st' = head @ drop (length head) (sections st')"
    using t by (metis append_take_drop_id)
  moreover have "list_all is_section_block (drop (length head) (sections st'))"
    using w by (simp add: wf_state_def)
  moreover have "\<not> list_ex is_section_block head"
    by (simp add: head_def head0_def)
  ultimately show ?thesis using p by metis
qed



section \<open>Evaluation\<close>

text \<open>The definitions a concrete run unfolds.\<close>

lemmas str_eval = ascii_def py_index_def strip_def rstrip_chars_def py_isspace_def
  is_upper_char_def is_lower_char_def is_digit_def lower_char_def upper_char_def py_lower_def
  py_upper_def py_isupper_def str_split1_def re_match_def lit_def cat_def colon_def
  newline_def bar_def Let_def

lemmas helper_eval = SECTION_PATTERNS_def extract_section_title_def is_section_header_def
  bullet_markers_def is_bullet_def clean_bullet_text_def contact_keywords_def
  phone_pattern_def is_contact_line_def

lemmas parse_eval = open_section_def append_item_def absorbs_def body_line_def
  contact_separator_def parse_resume_sections_def skip_blank.simps contact_loop.simps
  body_loop.simps

lemma parse_empty: "parse_resume_sections [] = Some []"
  by (simp add: str_eval parse_eval)


section \<open>The claims about the parser\<close>

text \<open>
  C2. Scenario 1: the name line, one contact line, the header \<open>EXPERIENCE\<close> and its
  two bullets.
\<close>

theorem scenario_one:
  "parse_resume_sections
     (ascii ''John Doe\<newline>john@mail.com\<newline>EXPERIENCE\<newline>- Built X\<newline>- Built Y'')
   = Some [NameBlock (ascii ''John Doe''), ContactBlock (ascii ''john@mail.com''),
           SectionBlock (ascii ''EXPERIENCE'')
             [Bullet (ascii ''Built X''), Bullet (ascii ''Built Y'')]]"
  by (simp add: str_eval helper_eval parse_eval)

text \<open>
  C5. For every text the parser returns a document; no index is out of range and no
  loop runs on. The empty text gives the empty document.
\<close>

theorem parse_resume_sections_total:
  "(\<exists>doc. parse_resume_sections text = Some doc) \<and> parse_resume_sections [] = Some []"
  using parse_structure [of "text"] parse_empty by blast




lemma resumo_title:
  "header_title (ascii ''Resumo Profissional'') = ascii ''Resumo Profissional''"
  by (simp add: header_title_def str_eval)

lemma resumo_is_header: "is_section_header (ascii ''Resumo Profissional'') = Some True"
  by (simp add: str_eval helper_eval)

lemma resumo_not_listed: "\<not> header_spec listed_section_names (ascii ''Resumo Profissional'')"
  unfolding header_spec_def resumo_title Let_def
  by (simp add: str_eval helper_eval listed_section_names_def)

text \<open>
  C6, as stated, fails: \<open>Resumo Profissional\<close> is a header for the code (first pattern),
  but it is not upper-case and none of the fourteen listed names matches it.
\<close>

theorem header_names_counterexample:
  "is_section_header (ascii ''Resumo Profissional'') = Some True
   \<and> \<not> header_spec listed_section_names (ascii ''Resumo Profissional'')"
  using resumo_is_header resumo_not_listed by (rule conjI)

text \<open>
  C6, amended. A line is a header exactly when its title (the part before the first
  \<open>:\<close>, stripped) is not empty and is upper-case and shorter than 60 characters, or
  begins with a match of one of the seventeen patterns of \<open>_SECTION_PATTERNS\<close>: the
  listed names and \<open>resumo profissional\<close>. The header test never raises.
\<close>

theorem is_section_header_spec:
  "is_section_header line = Some (header_spec SECTION_PATTERNS line)"
  by (rule is_section_header_eq)

text \<open>A header by its name, with inline content after the colon.\<close>

theorem is_section_header_spec_witness:
  "is_section_header (ascii ''Cursos: ingl'' @ [0xEA] @ ascii ''s'') = Some True
   \<and> header_spec SECTION_PATTERNS (ascii ''Cursos: ingl'' @ [0xEA] @ ascii ''s'')"
proof -
  have "is_section_header (ascii ''Cursos: ingl'' @ [0xEA] @ ascii ''s'') = Some True"
    by (simp add: str_eval helper_eval)
  with is_section_header_spec [of "ascii ''Cursos: ingl'' @ [0xEA] @ ascii ''s''"]
  show ?thesis by simp
qed

text \<open>
  C7, as stated, fails: \<open>Skills\<close> is neither upper-case nor one of the (Portuguese)
  section names, so the line is no header; as the first body line it becomes a paragraph
  of an implicit section.
\<close>

theorem skills_line_counterexample:
  "is_section_header (ascii ''Skills: Python, Go, Rust, C++, Java'') = Some False
   \<and> body_line \<lparr>sections = [], current_section = None\<rparr>
        (ascii ''Skills: Python, Go, Rust, C++, Java'')
     = Some \<lparr>sections = [SectionBlock [] [Paragraph (ascii ''Skills: Python, Go, Rust, C++, Java'')]],
             current_section = Some 0\<rparr>
   \<and> body_line \<lparr>sections = [], current_section = None\<rparr>
        (ascii ''Skills: Python, Go, Rust, C++, Java'')
     \<noteq> Some \<lparr>sections = [SectionBlock (ascii ''Skills'')
                           [Paragraph (ascii ''Python, Go, Rust, C++, Java'')]],
             current_section = Some 0\<rparr>"
  by (simp add: str_eval helper_eval parse_eval)

text \<open>
  C7, amended. A body line that is a header, holds a \<open>:\<close> and has more than 10
  characters after it opens a section whose title is the part before the colon and whose
  only item is a paragraph with the part after it.
\<close>

theorem header_inline_content:
  assumes "is_section_header line = Some True"
    and "colon \<in> set (strip line)"
    and "10 < length (inline_content line)"
  shows "body_line st line =
    Some \<lparr>sections = sections st @
             [SectionBlock (header_title line) [Paragraph (inline_content line)]],
          current_section = Some (length (sections st))\<rparr>"
proof -
  from assms(3) have ne: "inline_content line \<noteq> []" by auto
  have e: "extract_section_title line = Some (header_title line, inline_content line)"
    using assms(2,3) by (simp add: extract_section_title_eq inline_content_def)
  show ?thesis
    by (simp add: body_line_def assms(1) e ne open_section_def append_item_def py_index_def)
qed

text \<open>The line of the scenario under its Portuguese name.\<close>

theorem header_inline_content_witness:
  "body_line \<lparr>sections = [], current_section = None\<rparr>
        (ascii ''Habilidades: Python, Go, Rust, C++, Java'')
     = Some \<lparr>sections = [SectionBlock (ascii ''Habilidades'')
                           [Paragraph (ascii ''Python, Go, Rust, C++, Java'')]],
             current_section = Some 0\<rparr>"
proof -
  let ?l = "ascii ''Habilidades: Python, Go, Rust, C++, Java''"
  have h: "is_section_header ?l = Some True" by (simp add: str_eval helper_eval)
  have c: "colon \<in> set (strip ?l)" by (simp add: str_eval)
  have i: "inline_content ?l = ascii ''Python, Go, Rust, C++, Java''"
    by (simp add: inline_content_def str_eval)
  have t: "header_title ?l = ascii ''Habilidades''" by (simp add: header_title_def str_eval)
  have "10 < length (inline_content ?l)" by (simp add: i) (simp add: ascii_def)
  from header_inline_content [OF h c this, of "\<lparr>sections = [], current_section = None\<rparr>"]
  show ?thesis by (simp add: i t)
qed

lemma bullet_line_is_name:
  "parse_resume_sections (ascii ''- Led a team'') = Some [NameBlock (ascii ''- Led a team'')]"
  by (simp add: str_eval helper_eval parse_eval)

lemma bullet_line_is_contact:
  "parse_resume_sections (ascii ''John Doe\<newline>- john@mail.com'')
     = Some [NameBlock (ascii ''John Doe''), ContactBlock (ascii ''- john@mail.com'')]"
  by (simp add: str_eval helper_eval parse_eval)

lemma bullet_line_is_header:
  "parse_resume_sections (ascii ''John Doe\<newline>- LED A TEAM'')
     = Some [NameBlock (ascii ''John Doe''), SectionBlock (ascii ''- LED A TEAM'') []]"
  by (simp add: str_eval helper_eval parse_eval)

text \<open>
  C8, as stated, fails. A bullet line before any header does not always open an implicit
  section: as the first non-blank line of the text it is the name; right after the name,
  when it holds contact data, it is merged into the contact block; written in upper case
  it is a header, since the header test comes before the bullet test.
\<close>

theorem bullet_line_counterexample:
  "parse_resume_sections (ascii ''- Led a team'') = Some [NameBlock (ascii ''- Led a team'')]
   \<and> parse_resume_sections (ascii ''John Doe\<newline>- john@mail.com'')
     = Some [NameBlock (ascii ''John Doe''), ContactBlock (ascii ''- john@mail.com'')]
   \<and> parse_resume_sections (ascii ''John Doe\<newline>- LED A TEAM'')
     = Some [NameBlock (ascii ''John Doe''), SectionBlock (ascii ''- LED A TEAM'') []]"
  using bullet_line_is_name bullet_line_is_contact bullet_line_is_header by (intro conjI)

text \<open>
  C8, amended. Let the line at \<open>idx\<close>, stripped, be a bullet that is no header and
  that \<open>is_contact_line\<close> rejects. Then the contact loop stops at \<open>idx\<close> without taking
  the line, and the body loop, when no section is open, appends a section with an empty
  title whose only item is the bullet, its marker removed, and goes on with the next line.
\<close>

theorem bullet_opens_implicit_section:
  assumes "idx < length lines" and "line = strip (lines ! idx)"
    and "is_bullet line = Some True"
    and "is_section_header line = Some False"
    and "\<not> is_contact_line line"
    and "current_section st = None"
  shows "contact_loop lines idx contact_lines None = Some (contact_lines, idx)
    \<and> body_line st line =
        Some \<lparr>sections = sections st @ [SectionBlock [] [Bullet (strip (drop 1 line))]],
              current_section = Some (length (sections st))\<rparr>
    \<and> body_loop lines idx st =
        body_loop lines (idx + 1)
          \<lparr>sections = sections st @ [SectionBlock [] [Bullet (strip (drop 1 line))]],
           current_section = Some (length (sections st))\<rparr>"
proof -
  let ?st = "\<lparr>sections = sections st @ [SectionBlock [] [Bullet (strip (drop 1 line))]],
              current_section = Some (length (sections st))\<rparr>"
  have i: "py_index lines idx = Some (lines ! idx)" using assms(1) by (rule py_index_Some)
  have s: "strip line = line" by (simp add: assms(2) strip_strip)
  from assms(3) have b: "line \<noteq> [] \<and> hd line \<in> set bullet_markers"
    by (simp add: is_bullet_eq s)
  then have ne: "strip (lines ! idx) \<noteq> []" by (simp add: assms(2))
  have "clean_bullet_text line = Some (strip (drop 1 line))"
    using b by (simp add: clean_bullet_text_eq s)
  then have body: "body_line st line = Some ?st"
    by (simp add: body_line_def assms(3,4,6) open_section_def append_item_def py_index_def)
  have "absorbs line contact_lines None = Some False"
    using assms(3,4,5) by (simp add: absorbs_def)
  then have contact: "contact_loop lines idx contact_lines None = Some (contact_lines, idx)"
    using assms(1) i ne by (subst contact_loop.simps) (simp add: assms(2) [symmetric])
  have loop: "body_loop lines idx st = body_loop lines (idx + 1) ?st"
    using assms(1) i ne body by (subst body_loop.simps) (simp add: assms(2) [symmetric])
  from contact body loop show ?thesis by (intro conjI)
qed

text \<open>
  \<open>- Led a team\<close> as the first line after the name: the contact loop leaves it, the
  body loop opens the implicit section, and the whole parse gives the two blocks.
\<close>

theorem bullet_opens_implicit_section_witness:
  "contact_loop [ascii ''John Doe'', ascii ''- Led a team''] 1 [] None = Some ([], 1)
   \<and> body_line \<lparr>sections = [NameBlock (ascii ''John Doe'')], current_section = None\<rparr>
        (ascii ''- Led a team'')
     = Some \<lparr>sections = [NameBlock (ascii ''John Doe''),
                          SectionBlock [] [Bullet (ascii ''Led a team'')]],
             current_section = Some 1\<rparr>
   \<and> parse_resume_sections (ascii ''John Doe\<newline>- Led a team'')
     = Some [NameBlock (ascii ''John Doe''), SectionBlock [] [Bullet (ascii ''Led a team'')]]"
proof -
  let ?l = "ascii ''- Led a team''"
  let ?lines = "[ascii ''John Doe'', ?l]"
  let ?st = "\<lparr>sections = [NameBlock (ascii ''John Doe'')], current_section = None\<rparr>"
  have i: "Suc 0 < length ?lines" by simp
  have l: "?l = strip (?lines ! Suc 0)" by (simp add: str_eval)
  have b: "is_bullet ?l = Some True" by (simp add: str_eval helper_eval)
  have h: "is_section_header ?l = Some False" by (simp add: str_eval helper_eval)
  have c: "\<not> is_contact_line ?l" by (simp add: str_eval helper_eval)
  have n: "current_section ?st = None" by simp
  have t: "strip (drop 1 ?l) = ascii ''Led a team''" by (simp add: str_eval)
  have p: "parse_resume_sections (ascii ''John Doe\<newline>- Led a team'')
     = Some [NameBlock (ascii ''John Doe''), SectionBlock [] [Bullet (ascii ''Led a team'')]]"
    by (simp add: str_eval helper_eval parse_eval)
  note w = bullet_opens_implicit_section [OF i l b h c n, of "[]"]
  have 1: "contact_loop ?lines 1 [] None = Some ([], 1)"
    using w [THEN conjunct1] by simp
  have 2: "body_line ?st ?l
     = Some \<lparr>sections = [NameBlock (ascii ''John Doe''),
                          SectionBlock [] [Bullet (ascii ''Led a team'')]],
             current_section = Some 1\<rparr>"
    using w [THEN conjunct2, THEN conjunct1] by (simp only: t) simp
  from 1 2 p show ?thesis by (intro conjI)
qed

section \<open>The claims about the layout\<close>

lemma pad_column_eq: "pad_column col n = col @ replicate (n - length col) []"
proof (induction col n rule: pad_column.induct)
  case (1 col n)
  show ?case
  proof (cases "length col < n")
    case True
    then have "n - length col = Suc (n - Suc (length col))" by simp
    with "1.IH" [OF True] True show ?thesis
      by (subst pad_column.simps) (simp add: replicate_app_Cons_same)
  next
    case False
    then show ?thesis by (subst pad_column.simps) simp
  qed
qed

lemma skills_columns_eq:
  "skills_columns items =
    (take ((length (skills_texts items) + 1) div 2) (skills_texts items),
     drop ((length (skills_texts items) + 1) div 2) (skills_texts items))"
  by (simp add: skills_columns_def Let_def)

lemma build_skills_table_eq:
  "build_skills_table items =
    SkillsTable (zip
      (map skill_cell (take ((length (skills_texts items) + 1) div 2) (skills_texts items)))
      (map skill_cell (drop ((length (skills_texts items) + 1) div 2) (skills_texts items))
        @ replicate (length (skills_texts items) mod 2) []))"
proof -
  define texts where "texts = skills_texts items"
  define mid where "mid = (length texts + 1) div 2"
  have l1: "length (take mid texts) = mid" by (simp add: mid_def)
  have l2: "length (drop mid texts) = length texts - mid" by simp
  have le: "length texts - mid \<le> mid" by (simp add: mid_def)
  have d: "mid - (length texts - mid) = length texts mod 2" by (simp add: mid_def) presburger
  have p1: "pad_column (take mid texts) (length (drop mid texts)) = take mid texts"
    using le by (simp add: pad_column_eq l1)
  have p2: "pad_column (drop mid texts) (length (take mid texts))
      = drop mid texts @ replicate (length texts mod 2) []"
    by (simp only: pad_column_eq l1 l2 d)
  have c: "skill_cell [] = []" by (simp add: skill_cell_def)
  have z: "map (\<lambda>(left, right). (skill_cell left, skill_cell right)) (zip xs ys)
      = zip (map skill_cell xs) (map skill_cell ys)" for xs ys :: "ustring list"
    by (simp add: zip_map_map)
  show ?thesis
    unfolding build_skills_table_def skills_columns_eq Let_def prod.case
      texts_def [symmetric] mid_def [symmetric] p1 p2 z
    by (simp add: c)
qed

text \<open>
  C3, as stated, fails: a skills section of four bullets, one of them a bare marker with
  no text, is laid out in two columns, and the second column has one text, not two.
\<close>

theorem skills_columns_counterexample:
  "parse_resume_sections (ascii ''N\<newline>Habilidades\<newline>- a\<newline>-\<newline>- b\<newline>- c'')
     = Some [NameBlock (ascii ''N''),
             SectionBlock (ascii ''Habilidades'')
               [Bullet (ascii ''a''), Bullet [], Bullet (ascii ''b''), Bullet (ascii ''c'')]]
   \<and> list_ex is_table (render_section (ascii ''Habilidades'')
        [Bullet (ascii ''a''), Bullet [], Bullet (ascii ''b''), Bullet (ascii ''c'')])
   \<and> skills_columns [Bullet (ascii ''a''), Bullet [], Bullet (ascii ''b''), Bullet (ascii ''c'')]
     = ([ascii ''a'', ascii ''b''], [ascii ''c''])
   \<and> length (snd (skills_columns
        [Bullet (ascii ''a''), Bullet [], Bullet (ascii ''b''), Bullet (ascii ''c'')]))
     \<noteq> length [Bullet (ascii ''a''), Bullet [], Bullet (ascii ''b''), Bullet (ascii ''c'')] div 2"
proof -
  have p: "parse_resume_sections (ascii ''N\<newline>Habilidades\<newline>- a\<newline>-\<newline>- b\<newline>- c'')
     = Some [NameBlock (ascii ''N''),
             SectionBlock (ascii ''Habilidades'')
               [Bullet (ascii ''a''), Bullet [], Bullet (ascii ''b''), Bullet (ascii ''c'')]]"
    by (simp add: str_eval helper_eval parse_eval)
  have s: "is_skills (ascii ''Habilidades'')"
    by (simp add: is_skills_def skill_keywords_def str_eval)
  have r: "list_ex is_table (render_section (ascii ''Habilidades'')
        [Bullet (ascii ''a''), Bullet [], Bullet (ascii ''b''), Bullet (ascii ''c'')])"
    by (simp add: render_section_def s all_bullets_def build_skills_table_eq)
  have c: "skills_columns
      [Bullet (ascii ''a''), Bullet [], Bullet (ascii ''b''), Bullet (ascii ''c'')]
     = ([ascii ''a'', ascii ''b''], [ascii ''c''])"
    by (simp add: skills_columns_eq skills_texts_def ascii_def)
  show ?thesis by (simp add: p r c)
qed

text \<open>
  C3, amended. With \<open>n\<close> the number of items whose text is not empty, column A has
  \<open>(n + 1) div 2\<close> texts and column B has \<open>n div 2\<close>, and column A followed by
  column B is the list of the non-empty texts in their order; when no item has an empty
  text, \<open>n\<close> is the number of items and the two columns hold every text.
\<close>

theorem skills_columns_balanced:
  assumes "skills_columns items = (colA, colB)"
  shows "length colA = (length (filter (\<lambda>it. item_text it \<noteq> []) items) + 1) div 2
    \<and> length colB = length (filter (\<lambda>it. item_text it \<noteq> []) items) div 2
    \<and> colA @ colB = map item_text (filter (\<lambda>it. item_text it \<noteq> []) items)
    \<and> (list_all (\<lambda>it. item_text it \<noteq> []) items \<longrightarrow>
         length colA = (length items + 1) div 2 \<and> length colB = length items div 2
         \<and> colA @ colB = map item_text items)"
proof -
  define texts where "texts = skills_texts items"
  have m: "length texts = length (filter (\<lambda>it. item_text it \<noteq> []) items)"
    and t: "texts = map item_text (filter (\<lambda>it. item_text it \<noteq> []) items)"
    by (simp_all add: texts_def skills_texts_def)
  from assms have a: "colA = take ((length texts + 1) div 2) texts"
    and b: "colB = drop ((length texts + 1) div 2) texts"
    by (simp_all add: skills_columns_eq texts_def)
  have la: "length colA = (length texts + 1) div 2" by (simp add: a)
  have lb: "length colB = length texts div 2" by (simp add: b)
  have ab: "colA @ colB = texts" by (simp add: a b)
  have all: "filter (\<lambda>it. item_text it \<noteq> []) items = items"
    if "list_all (\<lambda>it. item_text it \<noteq> []) items"
    using that by (simp add: list_all_iff)
  show ?thesis using la lb ab all by (simp add: m t [symmetric]) (simp add: t)
qed

text \<open>Five bullets with one empty text, and three bullets with none.\<close>

theorem skills_columns_balanced_witness:
  "skills_columns [Bullet (ascii ''a''), Bullet [], Bullet (ascii ''b''), Bullet (ascii ''c''),
                   Bullet (ascii ''d'')]
     = ([ascii ''a'', ascii ''b''], [ascii ''c'', ascii ''d''])
   \<and> [ascii ''a'', ascii ''b''] @ [ascii ''c'', ascii ''d'']
     = map item_text (filter (\<lambda>it. item_text it \<noteq> [])
         [Bullet (ascii ''a''), Bullet [], Bullet (ascii ''b''), Bullet (ascii ''c''),
          Bullet (ascii ''d'')])
   \<and> skills_columns [Bullet (ascii ''a''), Bullet (ascii ''b''), Bullet (ascii ''c'')]
     = ([ascii ''a'', ascii ''b''], [ascii ''c''])
   \<and> list_all (\<lambda>it. item_text it \<noteq> [])
        [Bullet (ascii ''a''), Bullet (ascii ''b''), Bullet (ascii ''c'')]
   \<and> [ascii ''a'', ascii ''b''] @ [ascii ''c'']
     = map item_text [Bullet (ascii ''a''), Bullet (ascii ''b''), Bullet (ascii ''c'')]"
proof -
  have c1: "skills_columns [Bullet (ascii ''a''), Bullet [], Bullet (ascii ''b''),
      Bullet (ascii ''c''), Bullet (ascii ''d'')]
     = ([ascii ''a'', ascii ''b''], [ascii ''c'', ascii ''d''])"
    by (simp add: skills_columns_eq skills_texts_def ascii_def)
  have c2: "skills_columns [Bullet (ascii ''a''), Bullet (ascii ''b''), Bullet (ascii ''c'')]
     = ([ascii ''a'', ascii ''b''], [ascii ''c''])"
    by (simp add: skills_columns_eq skills_texts_def ascii_def)
  have n: "list_all (\<lambda>it. item_text it \<noteq> [])
        [Bullet (ascii ''a''), Bullet (ascii ''b''), Bullet (ascii ''c'')]"
    by (simp add: ascii_def)
  from skills_columns_balanced [OF c1] skills_columns_balanced [OF c2] c1 c2 n
  show ?thesis by blast
qed

lemma heading_no_table: "\<not> list_ex is_table (section_heading title)"
  by (simp add: section_heading_def)

lemma items_no_table: "\<not> list_ex is_table (map render_item items)"
proof (induction items)
  case Nil
  then show ?case by simp
next
  case (Cons it items)
  then show ?case by (cases it) simp_all
qed

lemma all_bullets_eq:
  "4 \<le> length items \<Longrightarrow> all_bullets items = list_all is_bullet_item items"
  by (auto simp: all_bullets_def)

lemma render_section_eq:
  "render_section title items =
    section_heading title @
    (if is_skills title \<and> list_all is_bullet_item items \<and> 4 \<le> length items
     then [build_skills_table items] else map render_item items)"
  by (auto simp: render_section_def section_heading_def all_bullets_eq)

text \<open>
  C9. A section is laid out as a two-column table exactly when its title holds a skills
  keyword, every item is a bullet and there are at least four items. The table then has
  the non-empty texts of the items, each behind the bullet markup: the first half (rounded
  up) in the left cells, the rest in the right cells, and an empty last right cell when
  their number is odd. Otherwise the items follow the heading one by one, so three
  bullets give three bullet points.
\<close>

theorem two_column_layout_iff:
  "render_section title items =
     section_heading title @
     (if is_skills title \<and> list_all is_bullet_item items \<and> 4 \<le> length items
      then [SkillsTable (zip
              (map skill_cell
                (take ((length (skills_texts items) + 1) div 2) (skills_texts items)))
              (map skill_cell
                (drop ((length (skills_texts items) + 1) div 2) (skills_texts items))
               @ replicate (length (skills_texts items) mod 2) []))]
      else map render_item items)
   \<and> skills_texts items = map item_text (filter (\<lambda>it. item_text it \<noteq> []) items)
   \<and> list_ex is_table (render_section title items)
     = (is_skills title \<and> list_all is_bullet_item items \<and> 4 \<le> length items)
   \<and> render_section title [Bullet a, Bullet b, Bullet c] =
       section_heading title @
       [BulletPoint a STYLE_BULLET, BulletPoint b STYLE_BULLET, BulletPoint c STYLE_BULLET]"
proof (intro conjI)
  show "render_section title items =
     section_heading title @
     (if is_skills title \<and> list_all is_bullet_item items \<and> 4 \<le> length items
      then [SkillsTable (zip
              (map skill_cell
                (take ((length (skills_texts items) + 1) div 2) (skills_texts items)))
              (map skill_cell
                (drop ((length (skills_texts items) + 1) div 2) (skills_texts items))
               @ replicate (length (skills_texts items) mod 2) []))]
      else map render_item items)"
    by (simp only: render_section_eq build_skills_table_eq)
  show "skills_texts items = map item_text (filter (\<lambda>it. item_text it \<noteq> []) items)"
    by (simp add: skills_texts_def)
  show "list_ex is_table (render_section title items)
     = (is_skills title \<and> list_all is_bullet_item items \<and> 4 \<le> length items)"
    using heading_no_table [of title] items_no_table [of items]
    by (simp add: render_section_eq build_skills_table_eq)
  show "render_section title [Bullet a, Bullet b, Bullet c] =
       section_heading title @
       [BulletPoint a STYLE_BULLET, BulletPoint b STYLE_BULLET, BulletPoint c STYLE_BULLET]"
    by (simp add: render_section_eq)
qed

text \<open>
  Four bullets under \<open>Habilidades\<close> give the rows (a, c) and (b, d); three bullets,
  and four items of which one is a paragraph, give no table.
\<close>

theorem two_column_layout_iff_witness:
  "is_skills (ascii ''Habilidades'')
   \<and> render_section (ascii ''Habilidades'')
        [Bullet (ascii ''a''), Bullet (ascii ''b''), Bullet (ascii ''c''), Bullet (ascii ''d'')]
     = [Spacer 1 4, SectionHeader (ascii ''Habilidades''), Spacer 1 6,
        SkillsTable [(bullet_char @ ascii ''a'', bullet_char @ ascii ''c''),
                     (bullet_char @ ascii ''b'', bullet_char @ ascii ''d'')]]
   \<and> \<not> list_ex is_table (render_section (ascii ''Habilidades'')
        [Bullet (ascii ''a''), Bullet (ascii ''b''), Bullet (ascii ''c'')])
   \<and> \<not> list_ex is_table (render_section (ascii ''Habilidades'')
        [Bullet (ascii ''a''), Bullet (ascii ''b''), Paragraph (ascii ''c''),
         Bullet (ascii ''d'')])
   \<and> render_section (ascii ''Habilidades'')
        [Bullet (ascii ''a''), Bullet (ascii ''b''), Bullet (ascii ''c'')]
     = [Spacer 1 4, SectionHeader (ascii ''Habilidades''), Spacer 1 6,
        BulletPoint (ascii ''a'') STYLE_BULLET, BulletPoint (ascii ''b'') STYLE_BULLET,
        BulletPoint (ascii ''c'') STYLE_BULLET]"
proof -
  let ?t = "ascii ''Habilidades''"
  let ?four = "[Bullet (ascii ''a''), Bullet (ascii ''b''), Bullet (ascii ''c''),
                Bullet (ascii ''d'')]"
  let ?three = "[Bullet (ascii ''a''), Bullet (ascii ''b''), Bullet (ascii ''c'')]"
  let ?mixed = "[Bullet (ascii ''a''), Bullet (ascii ''b''), Paragraph (ascii ''c''),
                 Bullet (ascii ''d'')]"
  have s: "is_skills ?t"
    by (simp add: is_skills_def skill_keywords_def str_eval)
  have h: "section_heading ?t = [Spacer 1 4, SectionHeader ?t, Spacer 1 6]"
    by (simp add: section_heading_def ascii_def)
  have ne: "ascii ''a'' \<noteq> []" "ascii ''b'' \<noteq> []" "ascii ''c'' \<noteq> []" "ascii ''d'' \<noteq> []"
    by (simp_all add: ascii_def)
  have t: "skills_texts ?four = [ascii ''a'', ascii ''b'', ascii ''c'', ascii ''d'']"
    by (simp add: skills_texts_def ne)
  have b4: "list_all is_bullet_item ?four \<and> 4 \<le> length ?four" by simp
  have b3: "\<not> 4 \<le> length ?three" by simp
  have bm: "\<not> list_all is_bullet_item ?mixed" by simp
  have "render_section ?t ?four =
     section_heading ?t @
      [SkillsTable (zip
              (map skill_cell (take ((length (skills_texts ?four) + 1) div 2) (skills_texts ?four)))
              (map skill_cell (drop ((length (skills_texts ?four) + 1) div 2) (skills_texts ?four))
               @ replicate (length (skills_texts ?four) mod 2) []))]"
    using two_column_layout_iff [of ?t ?four, THEN conjunct1] s b4 by simp
  then have 1: "render_section ?t ?four
     = [Spacer 1 4, SectionHeader ?t, Spacer 1 6,
        SkillsTable [(bullet_char @ ascii ''a'', bullet_char @ ascii ''c''),
                     (bullet_char @ ascii ''b'', bullet_char @ ascii ''d'')]]"
    by (simp add: t h skill_cell_def ne)
  have 2: "\<not> list_ex is_table (render_section ?t ?three)"
    using two_column_layout_iff [of ?t ?three, THEN conjunct2, THEN conjunct2, THEN conjunct1]
      b3 by blast
  have 3: "\<not> list_ex is_table (render_section ?t ?mixed)"
    using two_column_layout_iff [of ?t ?mixed, THEN conjunct2, THEN conjunct2, THEN conjunct1]
      bm by blast
  have 4: "render_section ?t ?three
     = [Spacer 1 4, SectionHeader ?t, Spacer 1 6,
        BulletPoint (ascii ''a'') STYLE_BULLET, BulletPoint (ascii ''b'') STYLE_BULLET,
        BulletPoint (ascii ''c'') STYLE_BULLET]"
    using two_column_layout_iff [of ?t ?three "ascii ''a''" "ascii ''b''" "ascii ''c''",
        THEN conjunct2, THEN conjunct2, THEN conjunct2]
    by (simp only: h append.simps)
  from s 1 2 3 4 show ?thesis by (intro conjI)
qed

lemma half_up: "((n::nat) + 1) div 2 = n div 2 + n mod 2"
  by (cases "even n") (auto elim!: evenE oddE)

lemma half_down: "(n::nat) - (n + 1) div 2 = n div 2"
  by (cases "even n") (auto elim!: evenE oddE)

lemma skills_table_rows_eq:
  "table_rows (build_skills_table items) =
    zip (map skill_cell (take ((length (skills_texts items) + 1) div 2) (skills_texts items)))
        (map skill_cell (drop ((length (skills_texts items) + 1) div 2) (skills_texts items))
          @ replicate (length (skills_texts items) mod 2) [])"
  by (simp only: build_skills_table_eq table_rows.simps)

lemma skills_table_columns_length:
  "length (map skill_cell (take ((length (texts::ustring list) + 1) div 2) texts))
    = length (map skill_cell (drop ((length texts + 1) div 2) texts)
        @ replicate (length texts mod 2) ([]::ustring))"
proof -
  have "length (map skill_cell (take ((length texts + 1) div 2) texts))
      = (length texts + 1) div 2"
    by (simp add: half_up)
  moreover have "length (map skill_cell (drop ((length texts + 1) div 2) texts)
        @ replicate (length texts mod 2) ([]::ustring))
      = length texts div 2 + length texts mod 2"
    by (simp only: length_append length_map length_drop length_replicate half_down)
  ultimately show ?thesis by (simp only: half_up)
qed

text \<open>
  C10. The table of a skills section is built from the items whose text is not empty:
  with \<open>m\<close> such items it has \<open>(m + 1) div 2\<close> rows, the left cells hold the first
  \<open>(m + 1) div 2\<close> of their texts and the right cells the rest, padded with one empty
  cell when \<open>m\<close> is odd.
\<close>

theorem skills_table_rows:
  "is_table (build_skills_table items)
   \<and> length (table_rows (build_skills_table items))
     = (length (filter (\<lambda>it. item_text it \<noteq> []) items) + 1) div 2
   \<and> map fst (table_rows (build_skills_table items))
     = map skill_cell (take ((length (skills_texts items) + 1) div 2) (skills_texts items))
   \<and> map snd (table_rows (build_skills_table items))
     = map skill_cell (drop ((length (skills_texts items) + 1) div 2) (skills_texts items))
       @ replicate (length (skills_texts items) mod 2) []
   \<and> skills_texts items = map item_text (filter (\<lambda>it. item_text it \<noteq> []) items)"
proof (intro conjI)
  note l = skills_table_columns_length [of "skills_texts items"]
  show "is_table (build_skills_table items)"
    by (simp only: build_skills_table_eq is_table.simps)
  have m: "length (skills_texts items) = length (filter (\<lambda>it. item_text it \<noteq> []) items)"
    by (simp add: skills_texts_def)
  have "length (table_rows (build_skills_table items))
      = length (map skill_cell
          (take ((length (skills_texts items) + 1) div 2) (skills_texts items)))"
    by (simp only: skills_table_rows_eq length_zip l [symmetric] min.idem)
  also have "\<dots> = (length (skills_texts items) + 1) div 2"
    by (simp add: half_up)
  finally show "length (table_rows (build_skills_table items))
     = (length (filter (\<lambda>it. item_text it \<noteq> []) items) + 1) div 2"
    by (simp only: m)
  show "map fst (table_rows (build_skills_table items))
     = map skill_cell (take ((length (skills_texts items) + 1) div 2) (skills_texts items))"
    unfolding skills_table_rows_eq using l by (rule map_fst_zip)
  show "map snd (table_rows (build_skills_table items))
     = map skill_cell (drop ((length (skills_texts items) + 1) div 2) (skills_texts items))
       @ replicate (length (skills_texts items) mod 2) []"
    unfolding skills_table_rows_eq using l by (rule map_snd_zip)
  show "skills_texts items = map item_text (filter (\<lambda>it. item_text it \<noteq> []) items)"
    by (simp add: skills_texts_def)
qed

text \<open>Five bullets, two of them with no text: three texts, two rows.\<close>

theorem skills_table_rows_witness:
  "build_skills_table
     [Bullet (ascii ''a''), Bullet [], Bullet (ascii ''b''), Bullet (ascii ''c''), Bullet []]
     = SkillsTable [(bullet_char @ ascii ''a'', bullet_char @ ascii ''c''),
                    (bullet_char @ ascii ''b'', [])]
   \<and> length (table_rows (build_skills_table
        [Bullet (ascii ''a''), Bullet [], Bullet (ascii ''b''), Bullet (ascii ''c''), Bullet []]))
     = 2"
proof -
  let ?items = "[Bullet (ascii ''a''), Bullet [], Bullet (ascii ''b''), Bullet (ascii ''c''),
                 Bullet []]"
  have ne: "ascii ''a'' \<noteq> []" "ascii ''b'' \<noteq> []" "ascii ''c'' \<noteq> []"
    by (simp_all add: ascii_def)
  have f: "filter (\<lambda>it. item_text it \<noteq> []) ?items
      = [Bullet (ascii ''a''), Bullet (ascii ''b''), Bullet (ascii ''c'')]"
    by (simp add: ne)
  have t: "skills_texts ?items = [ascii ''a'', ascii ''b'', ascii ''c'']"
    by (simp add: skills_texts_def ne)
  have c: "skill_cell (ascii ''a'') = bullet_char @ ascii ''a''"
    "skill_cell (ascii ''b'') = bullet_char @ ascii ''b''"
    "skill_cell (ascii ''c'') = bullet_char @ ascii ''c''"
    by (simp_all add: skill_cell_def ne)
  have b: "build_skills_table ?items
     = SkillsTable [(bullet_char @ ascii ''a'', bullet_char @ ascii ''c''),
                    (bullet_char @ ascii ''b'', [])]"
    unfolding build_skills_table_eq t by (simp add: c)
  have "length (table_rows (build_skills_table ?items)) = 2"
    using skills_table_rows [of ?items] by (simp only: f) simp
  with b show ?thesis by (rule conjI)
qed

end
